theory Spec2Isabelle
  imports Main
begin

unbundle bit_operations_syntax

section \<open>The LS-8 emulator of \<^verbatim>\<open>cpu.py\<close>\<close>

text \<open>
  Python integers are unbounded, so every register, memory cell, the program counter and
  the flags are modelled as \<^typ>\<open>int\<close>; \<^verbatim>\<open>&\<close> and \<^verbatim>\<open>>>\<close> on Python integers are
  the two's complement operations \<open>AND\<close> and \<open>drop_bit\<close> on \<^typ>\<open>int\<close>.
\<close>

subsection \<open>Opcodes\<close>

definition HLT :: int where "HLT = 1"     \<comment> \<open>\<^verbatim>\<open>0b00000001\<close>\<close>
definition LDI :: int where "LDI = 130"   \<comment> \<open>\<^verbatim>\<open>0b10000010\<close>\<close>
definition PRN :: int where "PRN = 71"    \<comment> \<open>\<^verbatim>\<open>0b01000111\<close>\<close>
definition MUL :: int where "MUL = 162"   \<comment> \<open>\<^verbatim>\<open>0b10100010\<close>\<close>
definition PUSH :: int where "PUSH = 69"  \<comment> \<open>\<^verbatim>\<open>0b01000101\<close>\<close>
definition POP :: int where "POP = 70"    \<comment> \<open>\<^verbatim>\<open>0b01000110\<close>\<close>
definition CALL :: int where "CALL = 80"  \<comment> \<open>\<^verbatim>\<open>0b01010000\<close>\<close>
definition RET :: int where "RET = 17"    \<comment> \<open>\<^verbatim>\<open>0b00010001\<close>\<close>
definition ADD :: int where "ADD = 160"   \<comment> \<open>\<^verbatim>\<open>0b10100000\<close>\<close>
definition CMP :: int where "CMP = 167"   \<comment> \<open>\<^verbatim>\<open>0b10100111\<close>\<close>
definition JMP :: int where "JMP = 84"    \<comment> \<open>\<^verbatim>\<open>0b01010100\<close>\<close>
definition JEQ :: int where "JEQ = 85"    \<comment> \<open>\<^verbatim>\<open>0b01010101\<close>\<close>
definition JNE :: int where "JNE = 86"    \<comment> \<open>\<^verbatim>\<open>0b01010110\<close>\<close>

lemmas opcode_defs =
  HLT_def LDI_def PRN_def MUL_def PUSH_def POP_def CALL_def RET_def ADD_def CMP_def
  JMP_def JEQ_def JNE_def

subsection \<open>Machine state, output and errors\<close>

text \<open>
  What the program writes to standard output, one entry per \<^verbatim>\<open>print\<close> call, each
  carrying exactly the value the source interpolates into the line:
  \<^item> \<open>Printed v\<close>: \<^verbatim>\<open>print(self.reg[self.op_a])\<close> of \<^verbatim>\<open>process_PRN\<close>;
  \<^item> \<open>Error_with_read_from_memory_address a\<close>: the line printed by both \<^verbatim>\<open>ram_read\<close>
    and \<^verbatim>\<open>ram_write\<close> (the same text in both) for an address out of range;
  \<^item> \<open>Could_not_find_instruction i\<close>: the line printed by \<^verbatim>\<open>run\<close> before it exits.
\<close>

datatype stdout =
    Printed int
  | Error_with_read_from_memory_address int
  | Could_not_find_instruction int

text \<open>
  The exceptions the engine can raise: \<^verbatim>\<open>IndexError\<close> from indexing the register list,
  and \<^verbatim>\<open>SystemExit\<close> from \<^verbatim>\<open>sys.exit(1)\<close>.
\<close>

datatype error = IndexError | SystemExit int

record cpu =
  ram :: "int list"
  reg :: "int list"
  pc :: int
  ir :: int
  mar :: int
  mdr :: int
  fl :: int
  halted :: bool
  out :: "stdout list"

text \<open>A raised exception comes with the machine state at the moment it is raised.\<close>

type_synonym result = "(error \<times> cpu) + cpu"

fun state_of :: "result \<Rightarrow> cpu" where
  "state_of (Inl (e, s)) = s"
| "state_of (Inr s) = s"

text \<open>\<^verbatim>\<open>CPU.__init__\<close>.\<close>

definition init :: cpu where
  "init = \<lparr> ram = replicate 256 0, reg = (replicate 8 0)[7 := 0xF4], pc = 0, ir = 0,
            mar = 0, mdr = 0, fl = 0, halted = False, out = [] \<rparr>"

text \<open>
  The machine after construction with a memory image in place from address 0 on. (Parsing
  the program file is the loader's business; here the image is given as the list of parsed
  values, and the rest of the memory keeps the zeros of \<^verbatim>\<open>__init__\<close>.)
\<close>

definition with_program :: "int list \<Rightarrow> cpu" where
  "with_program prog = init\<lparr>ram := take 256 prog @ replicate (256 - length prog) 0\<rparr>"

text \<open>The lengths of both lists never change after construction.\<close>

definition wf :: "cpu \<Rightarrow> bool" where
  "wf s \<longleftrightarrow> length (ram s) = 256 \<and> length (reg s) = 8"

subsection \<open>Python list indexing\<close>

text \<open>
  \<^verbatim>\<open>xs[i]\<close> and \<^verbatim>\<open>xs[i] = v\<close>: a negative index counts from the end, and an index
  outside \<open>[-len, len)\<close> raises \<^verbatim>\<open>IndexError\<close> (here \<open>None\<close>).
\<close>

definition py_index :: "int list \<Rightarrow> int \<Rightarrow> nat option" where
  "py_index xs i =
     (let n = int (length xs); j = (if i < 0 then n + i else i)
      in if 0 \<le> j \<and> j < n then Some (nat j) else None)"

definition py_get :: "int list \<Rightarrow> int \<Rightarrow> int option" where
  "py_get xs i = map_option (\<lambda>j. xs ! j) (py_index xs i)"

definition py_set :: "int list \<Rightarrow> int \<Rightarrow> int \<Rightarrow> int list option" where
  "py_set xs i v = map_option (\<lambda>j. xs[j := v]) (py_index xs i)"

subsection \<open>Properties and memory access\<close>

text \<open>The \<^verbatim>\<open>sp\<close> property: getter and setter over register 7.\<close>

definition sp :: "cpu \<Rightarrow> int" where
  "sp s = reg s ! 7"

definition set_sp :: "int \<Rightarrow> cpu \<Rightarrow> cpu" where
  "set_sp a s = s\<lparr>reg := (reg s)[7 := a AND 0xFF]\<rparr>"

text \<open>\<^verbatim>\<open>ram_read\<close> returns the value read, and the state with the line it may have printed.\<close>

definition ram_read :: "int \<Rightarrow> cpu \<Rightarrow> int \<times> cpu" where
  "ram_read a s =
     (if a \<ge> 0 \<and> a < int (length (ram s)) then (ram s ! nat a, s)
      else (- 1, s\<lparr>out := out s @ [Error_with_read_from_memory_address a]\<rparr>))"

definition ram_write :: "int \<Rightarrow> int \<Rightarrow> cpu \<Rightarrow> cpu" where
  "ram_write a v s =
     (if a \<ge> 0 \<and> a < int (length (ram s)) then s\<lparr>ram := (ram s)[nat a := v AND 0xFF]\<rparr>
      else s\<lparr>out := out s @ [Error_with_read_from_memory_address a]\<rparr>)"

definition op_a :: "cpu \<Rightarrow> int \<times> cpu" where
  "op_a s = ram_read (pc s + 1) s"

definition op_b :: "cpu \<Rightarrow> int \<times> cpu" where
  "op_b s = ram_read (pc s + 2) s"

definition instruction_size :: "cpu \<Rightarrow> int" where
  "instruction_size s = (drop_bit 6 (ir s) AND 0b11) + 1"

definition instruction_sets_pc :: "cpu \<Rightarrow> bool" where
  "instruction_sets_pc s \<longleftrightarrow> (drop_bit 4 (ir s) AND 0b0001) = 1"

subsection \<open>Instruction handlers\<close>

definition process_HLT :: "cpu \<Rightarrow> result" where
  "process_HLT s = Inr (s\<lparr>halted := True\<rparr>)"

text \<open>
  \<^verbatim>\<open>self.reg[self.op_a] = self.op_b\<close>: Python evaluates the right-hand side first, then
  the index of the target.
\<close>

definition process_LDI :: "cpu \<Rightarrow> result" where
  "process_LDI s =
     (let (b, s1) = op_b s; (a, s2) = op_a s1
      in case py_set (reg s2) a b of
           None \<Rightarrow> Inl (IndexError, s2)
         | Some r \<Rightarrow> Inr (s2\<lparr>reg := r\<rparr>))"

definition process_PRN :: "cpu \<Rightarrow> result" where
  "process_PRN s =
     (let (a, s1) = op_a s
      in case py_get (reg s1) a of
           None \<Rightarrow> Inl (IndexError, s1)
         | Some v \<Rightarrow> Inr (s1\<lparr>out := out s1 @ [Printed v]\<rparr>))"

text \<open>
  The expression \<^verbatim>\<open>self.reg[self.op_a]\<close> followed by \<^verbatim>\<open>self.reg[self.op_b]\<close>, as
  \<^verbatim>\<open>process_MUL\<close>, \<^verbatim>\<open>process_ADD\<close> and \<^verbatim>\<open>process_CMP\<close> evaluate them, left to right:
  the index \<open>a\<close>, both register values and the state after the two operand reads.
\<close>

definition reg_operands :: "cpu \<Rightarrow> (error \<times> cpu) + ((int \<times> int \<times> int) \<times> cpu)" where
  "reg_operands s =
     (let (a, s1) = op_a s
      in case py_get (reg s1) a of
           None \<Rightarrow> Inl (IndexError, s1)
         | Some x \<Rightarrow>
             (let (b, s2) = op_b s1
              in case py_get (reg s2) b of
                   None \<Rightarrow> Inl (IndexError, s2)
                 | Some y \<Rightarrow> Inr ((a, x, y), s2)))"

text \<open>\<^verbatim>\<open>self.reg[self.op_a] *= self.reg[self.op_b]\<close>: the product is stored as it is.\<close>

definition process_MUL :: "cpu \<Rightarrow> result" where
  "process_MUL s =
     (case reg_operands s of
        Inl e \<Rightarrow> Inl e
      | Inr ((a, x, y), s2) \<Rightarrow>
          (case py_set (reg s2) a (x * y) of
             None \<Rightarrow> Inl (IndexError, s2)
           | Some r \<Rightarrow> Inr (s2\<lparr>reg := r\<rparr>)))"

definition process_PUSH :: "cpu \<Rightarrow> result" where
  "process_PUSH s =
     (let s1 = set_sp (sp s - 1) s;
          (a, s2) = op_a s1
      in case py_get (reg s2) a of
           None \<Rightarrow> Inl (IndexError, s2)
         | Some v \<Rightarrow>
             (let s3 = s2\<lparr>mdr := v\<rparr>
              in Inr (ram_write (sp s3) (mdr s3) s3)))"

definition process_POP :: "cpu \<Rightarrow> result" where
  "process_POP s =
     (let (v, s1) = ram_read (sp s) s;
          s2 = s1\<lparr>mdr := v\<rparr>;
          (a, s3) = op_a s2
      in case py_set (reg s3) a (mdr s3) of
           None \<Rightarrow> Inl (IndexError, s3)
         | Some r \<Rightarrow>
             (let s4 = s3\<lparr>reg := r\<rparr>
              in Inr (set_sp (sp s4 + 1) s4)))"

definition process_CALL :: "cpu \<Rightarrow> result" where
  "process_CALL s =
     (let s1 = set_sp (sp s - 1) s;
          s2 = ram_write (sp s1) (pc s1 + instruction_size s1) s1;
          (a, s3) = op_a s2
      in case py_get (reg s3) a of
           None \<Rightarrow> Inl (IndexError, s3)
         | Some v \<Rightarrow> Inr (s3\<lparr>pc := v\<rparr>))"

definition process_RET :: "cpu \<Rightarrow> result" where
  "process_RET s =
     (let (v, s1) = ram_read (sp s) s;
          s2 = s1\<lparr>pc := v\<rparr>
      in Inr (set_sp (sp s2 + 1) s2))"

text \<open>\<^verbatim>\<open>self.reg[self.op_a] += self.reg[self.op_b]\<close>: the sum is stored as it is.\<close>

definition process_ADD :: "cpu \<Rightarrow> result" where
  "process_ADD s =
     (case reg_operands s of
        Inl e \<Rightarrow> Inl e
      | Inr ((a, x, y), s2) \<Rightarrow>
          (case py_set (reg s2) a (x + y) of
             None \<Rightarrow> Inl (IndexError, s2)
           | Some r \<Rightarrow> Inr (s2\<lparr>reg := r\<rparr>)))"

text \<open>
  The \<^verbatim>\<open>elif\<close> of \<^verbatim>\<open>process_CMP\<close> evaluates both register expressions a second time
  (and so reads the operands again).
\<close>

definition process_CMP :: "cpu \<Rightarrow> result" where
  "process_CMP s =
     (case reg_operands s of
        Inl e \<Rightarrow> Inl e
      | Inr ((a, x, y), s2) \<Rightarrow>
          if x < y then Inr (s2\<lparr>fl := 0b00000100\<rparr>)
          else
            (case reg_operands s2 of
               Inl e \<Rightarrow> Inl e
             | Inr ((a', x', y'), s4) \<Rightarrow>
                 if x' > y' then Inr (s4\<lparr>fl := 0b00000010\<rparr>)
                 else Inr (s4\<lparr>fl := 0b00000001\<rparr>)))"

definition process_JMP :: "cpu \<Rightarrow> result" where
  "process_JMP s =
     (let (a, s1) = op_a s
      in case py_get (reg s1) a of
           None \<Rightarrow> Inl (IndexError, s1)
         | Some v \<Rightarrow> Inr (s1\<lparr>pc := v\<rparr>))"

definition process_JEQ :: "cpu \<Rightarrow> result" where
  "process_JEQ s =
     (if fl s = 0b00000001 then process_JMP s
      else Inr (s\<lparr>pc := pc s + instruction_size s\<rparr>))"

definition process_JNE :: "cpu \<Rightarrow> result" where
  "process_JNE s =
     (if fl s \<noteq> 0b00000001 then process_JMP s
      else Inr (s\<lparr>pc := pc s + instruction_size s\<rparr>))"

subsection \<open>Dispatch and the execution loop\<close>

text \<open>The branch table, filled in the order of \<^verbatim>\<open>__init__\<close>.\<close>

definition branchtable :: "int \<rightharpoonup> (cpu \<Rightarrow> result)" where
  "branchtable =
     Map.empty(HLT \<mapsto> process_HLT, LDI \<mapsto> process_LDI, PRN \<mapsto> process_PRN,
       MUL \<mapsto> process_MUL, PUSH \<mapsto> process_PUSH, POP \<mapsto> process_POP,
       CALL \<mapsto> process_CALL, RET \<mapsto> process_RET, ADD \<mapsto> process_ADD,
       CMP \<mapsto> process_CMP, JMP \<mapsto> process_JMP, JEQ \<mapsto> process_JEQ,
       JNE \<mapsto> process_JNE)"

text \<open>\<^verbatim>\<open>self.ir = self.ram_read(self.pc)\<close>.\<close>

definition fetch :: "cpu \<Rightarrow> cpu" where
  "fetch s = (let (i, s1) = ram_read (pc s) s in s1\<lparr>ir := i\<rparr>)"

text \<open>One pass through the body of the \<^verbatim>\<open>while\<close> loop of \<^verbatim>\<open>run\<close>.\<close>

definition step :: "cpu \<Rightarrow> result" where
  "step s =
     (let s1 = fetch s
      in case branchtable (ir s1) of
           None \<Rightarrow>
             Inl (SystemExit 1, s1\<lparr>out := out s1 @ [Could_not_find_instruction (ir s1)]\<rparr>)
         | Some handler \<Rightarrow>
             (case handler s1 of
                Inl e \<Rightarrow> Inl e
              | Inr s2 \<Rightarrow>
                  Inr (if \<not> instruction_sets_pc s2
                       then s2\<lparr>pc := pc s2 + instruction_size s2\<rparr> else s2)))"

text \<open>
  \<^verbatim>\<open>run\<close>: the loop may go on forever, so it is given fuel, one unit per cycle; \<open>None\<close>
  means the fuel ran out before the loop ended.
\<close>

fun run :: "nat \<Rightarrow> cpu \<Rightarrow> result option" where
  "run 0 s = (if halted s then Some (Inr s) else None)"
| "run (Suc n) s =
     (if halted s then Some (Inr s)
      else case step s of
             Inl e \<Rightarrow> Some (Inl e)
           | Inr s' \<Rightarrow> run n s')"

subsection \<open>Observations used in the statements\<close>

text \<open>Every memory cell holds an unsigned 8-bit value.\<close>

definition mem8 :: "cpu \<Rightarrow> bool" where
  "mem8 s \<longleftrightarrow> list_all (\<lambda>v. 0 \<le> v \<and> v \<le> 255) (ram s)"

text \<open>
  What a handler keeps of the state it is given, whether it returns or raises: the
  instruction register, the sizes of memory and register file, and 8-bit memory cells.
\<close>

definition frame :: "cpu \<Rightarrow> cpu \<Rightarrow> bool" where
  "frame u t \<longleftrightarrow> ir t = ir u \<and> length (ram t) = length (ram u) \<and> length (reg t) = length (reg u)
     \<and> (mem8 u \<longrightarrow> mem8 t)"

text \<open>
  What the caller of \<^verbatim>\<open>run\<close> gets of a run that ended in an exception: the exception
  and the lines printed.
\<close>

definition exit_report :: "result option \<Rightarrow> (error \<times> stdout list) option" where
  "exit_report r = (case r of Some (Inl (e, s)) \<Rightarrow> Some (e, out s) | _ \<Rightarrow> None)"

section \<open>Auxiliary facts\<close>

lemma and_255: "(x::int) AND 255 = x mod 256"
  using take_bit_eq_mask [of 8 x] by (simp add: take_bit_eq_mod mask_eq_exp_minus_1)

lemma and_3: "(x::int) AND 3 = x mod 4"
  using take_bit_eq_mask [of 2 x] by (simp add: take_bit_eq_mod mask_eq_exp_minus_1)

lemma and_1: "(x::int) AND 1 = x mod 2"
  by (simp add: and_one_eq)

lemma instruction_size_arith: "instruction_size s = ir s div 64 mod 4 + 1"
  by (simp add: instruction_size_def and_3 drop_bit_eq_div)

lemma instruction_sets_pc_bit: "instruction_sets_pc s \<longleftrightarrow> bit (ir s) 4"
  by (simp add: instruction_sets_pc_def and_1 drop_bit_eq_div bit_iff_odd odd_iff_mod_2_eq_one)

lemma instruction_sets_pc_arith: "instruction_sets_pc s \<longleftrightarrow> ir s div 16 mod 2 = 1"
  by (simp add: instruction_sets_pc_def and_1 drop_bit_eq_div)

lemma ram_read_in:
  "0 \<le> a \<Longrightarrow> a < int (length (ram s)) \<Longrightarrow> ram_read a s = (ram s ! nat a, s)"
  by (simp add: ram_read_def)

lemma py_index_nat: "i < length xs \<Longrightarrow> py_index xs (int i) = Some i"
  by (simp add: py_index_def)

lemma py_get_nat: "i < length xs \<Longrightarrow> py_get xs (int i) = Some (xs ! i)"
  by (simp add: py_get_def py_index_nat)

lemma py_set_nat: "i < length xs \<Longrightarrow> py_set xs (int i) v = Some (xs[i := v])"
  by (simp add: py_set_def py_index_nat)

lemma branchtable_ADD: "branchtable ADD = Some process_ADD"
  by (simp add: branchtable_def opcode_defs)

lemma branchtable_MUL: "branchtable MUL = Some process_MUL"
  by (simp add: branchtable_def opcode_defs)

lemma reg_operands_regs:
  assumes "wf s" "0 \<le> pc s" "pc s + 2 < 256"
    and "ram s ! nat (pc s + 1) = int ra" "ram s ! nat (pc s + 2) = int rb"
    and "ra < 8" "rb < 8"
  shows "reg_operands s = Inr ((int ra, reg s ! ra, reg s ! rb), s)"
  using assms
  by (simp add: reg_operands_def op_a_def op_b_def ram_read_in wf_def py_get_nat)



lemma branchtable_cases:
  "branchtable i = Some h \<Longrightarrow>
     (i = HLT \<and> h = process_HLT) \<or> (i = LDI \<and> h = process_LDI) \<or>
     (i = PRN \<and> h = process_PRN) \<or> (i = MUL \<and> h = process_MUL) \<or>
     (i = PUSH \<and> h = process_PUSH) \<or> (i = POP \<and> h = process_POP) \<or>
     (i = CALL \<and> h = process_CALL) \<or> (i = RET \<and> h = process_RET) \<or>
     (i = ADD \<and> h = process_ADD) \<or> (i = CMP \<and> h = process_CMP) \<or>
     (i = JMP \<and> h = process_JMP) \<or> (i = JEQ \<and> h = process_JEQ) \<or>
     (i = JNE \<and> h = process_JNE)"
  by (simp add: branchtable_def split: if_splits)

text \<open>What the primitives leave alone.\<close>


lemma ram_read_frame [simp]:
  "ram (snd (ram_read a s)) = ram s" "reg (snd (ram_read a s)) = reg s"
  "pc (snd (ram_read a s)) = pc s" "ir (snd (ram_read a s)) = ir s"
  "fl (snd (ram_read a s)) = fl s" "halted (snd (ram_read a s)) = halted s"
  "mdr (snd (ram_read a s)) = mdr s"
  by (simp_all add: ram_read_def)

lemma op_frame [simp]:
  "ram (snd (op_a s)) = ram s" "reg (snd (op_a s)) = reg s"
  "pc (snd (op_a s)) = pc s" "ir (snd (op_a s)) = ir s"
  "fl (snd (op_a s)) = fl s" "halted (snd (op_a s)) = halted s"
  "mdr (snd (op_a s)) = mdr s"
  "ram (snd (op_b s)) = ram s" "reg (snd (op_b s)) = reg s"
  "pc (snd (op_b s)) = pc s" "ir (snd (op_b s)) = ir s"
  "fl (snd (op_b s)) = fl s" "halted (snd (op_b s)) = halted s"
  "mdr (snd (op_b s)) = mdr s"
  by (simp_all add: op_a_def op_b_def)

lemma set_sp_frame [simp]:
  "ram (set_sp a s) = ram s" "length (reg (set_sp a s)) = length (reg s)"
  "pc (set_sp a s) = pc s" "ir (set_sp a s) = ir s"
  "fl (set_sp a s) = fl s" "halted (set_sp a s) = halted s"
  by (simp_all add: set_sp_def)

lemma ram_write_frame [simp]:
  "length (ram (ram_write a v s)) = length (ram s)" "reg (ram_write a v s) = reg s"
  "pc (ram_write a v s) = pc s" "ir (ram_write a v s) = ir s"
  "fl (ram_write a v s) = fl s" "halted (ram_write a v s) = halted s"
  by (simp_all add: ram_write_def)

lemma list_update_8bit:
  "list_all (\<lambda>v. 0 \<le> v \<and> v \<le> 255) xs \<Longrightarrow>
   list_all (\<lambda>v. 0 \<le> v \<and> v \<le> 255) (xs[k := (v::int) mod 256])"
proof -
  assume a: "list_all (\<lambda>v. 0 \<le> v \<and> v \<le> 255) xs"
  have b: "0 \<le> v mod 256 \<and> v mod 256 \<le> 255" by simp
  have "set (xs[k := v mod 256]) \<subseteq> insert (v mod 256) (set xs)"
    by (rule set_update_subset_insert)
  with a b show ?thesis
    unfolding list_all_iff by blast
qed

lemma ram_write_8bit [simp]:
  "list_all (\<lambda>v. 0 \<le> v \<and> v \<le> 255) (ram s) \<Longrightarrow>
   list_all (\<lambda>v. 0 \<le> v \<and> v \<le> 255) (ram (ram_write a v s))"
  by (simp add: ram_write_def and_255 list_update_8bit)

lemma py_set_length: "py_set xs i v = Some ys \<Longrightarrow> length ys = length xs"
  by (auto simp: py_set_def)


lemma py_set_case:
  "(case py_set xs i v of None \<Rightarrow> f | Some r \<Rightarrow> g r) =
   (case py_index xs i of None \<Rightarrow> f | Some j \<Rightarrow> g (xs[j := v]))"
  by (simp add: py_set_def split: option.split)

lemma py_get_case:
  "(case py_get xs i of None \<Rightarrow> f | Some r \<Rightarrow> g r) =
   (case py_index xs i of None \<Rightarrow> f | Some j \<Rightarrow> g (xs ! j))"
  by (simp add: py_get_def split: option.split)

lemma reg_operands_Inr:
  "reg_operands u = Inr (v, t) \<Longrightarrow>
     ram t = ram u \<and> reg t = reg u \<and> pc t = pc u \<and> ir t = ir u \<and> fl t = fl u \<and> halted t = halted u"
  by (simp add: reg_operands_def case_prod_beta py_get_case split: option.split_asm) auto

lemma reg_operands_Inl:
  "reg_operands u = Inl (e, t) \<Longrightarrow>
     ram t = ram u \<and> reg t = reg u \<and> pc t = pc u \<and> ir t = ir u \<and> fl t = fl u \<and> halted t = halted u"
  by (simp add: reg_operands_def case_prod_beta py_get_case split: option.split_asm) auto

lemma frame_HLT: "frame u (state_of (process_HLT u))"
  by (simp add: process_HLT_def frame_def mem8_def)

lemma pc_HLT: "process_HLT u = Inr t \<Longrightarrow> pc t = pc u \<and> fl t = fl u"
  by (auto simp: process_HLT_def)

lemma frame_LDI: "frame u (state_of (process_LDI u))"
  by (simp add: process_LDI_def frame_def case_prod_beta py_set_case mem8_def split: option.split)

lemma pc_LDI: "process_LDI u = Inr t \<Longrightarrow> pc t = pc u \<and> fl t = fl u"
  by (simp add: process_LDI_def case_prod_beta py_set_case split: option.split_asm) auto

lemma frame_PRN: "frame u (state_of (process_PRN u))"
  by (simp add: process_PRN_def frame_def case_prod_beta py_get_case mem8_def split: option.split)

lemma pc_PRN: "process_PRN u = Inr t \<Longrightarrow> pc t = pc u \<and> fl t = fl u"
  by (simp add: process_PRN_def case_prod_beta py_get_case split: option.split_asm) auto

text \<open>\<^verbatim>\<open>process_MUL\<close> and \<^verbatim>\<open>process_ADD\<close> differ in the operation only.\<close>

lemma frame_arith:
  "frame u (state_of (case reg_operands u of
        Inl e \<Rightarrow> Inl e
      | Inr ((a, x, y), s2) \<Rightarrow>
          (case py_set (reg s2) a (f x y) of
             None \<Rightarrow> Inl (IndexError, s2)
           | Some r \<Rightarrow> Inr (s2\<lparr>reg := r\<rparr>))))"
proof (cases "reg_operands u")
  case (Inl p)
  obtain e t where p: "p = (e, t)" by (cases p)
  from reg_operands_Inl [of u e t] Inl p show ?thesis
    by (simp add: frame_def mem8_def)
next
  case (Inr q)
  obtain a x y t where q: "q = ((a, x, y), t)" by (cases q) auto
  from reg_operands_Inr [of u "(a, x, y)" t] Inr q show ?thesis
    by (simp add: frame_def mem8_def py_set_case split: option.split)
qed

lemma pc_arith:
  assumes "(case reg_operands u of
        Inl e \<Rightarrow> Inl e
      | Inr ((a, x, y), s2) \<Rightarrow>
          (case py_set (reg s2) a (f x y) of
             None \<Rightarrow> Inl (IndexError, s2)
           | Some r \<Rightarrow> Inr (s2\<lparr>reg := r\<rparr>))) = Inr t"
  shows "pc t = pc u \<and> fl t = fl u"
proof (cases "reg_operands u")
  case (Inl p)
  with assms show ?thesis by simp
next
  case (Inr q)
  obtain a x y t' where q: "q = ((a, x, y), t')" by (cases q) auto
  from reg_operands_Inr [of u "(a, x, y)" t'] Inr q assms show ?thesis
    by (simp add: py_set_case split: option.split_asm) auto
qed

lemma frame_MUL: "frame u (state_of (process_MUL u))"
  unfolding process_MUL_def by (rule frame_arith)

lemma pc_MUL: "process_MUL u = Inr t \<Longrightarrow> pc t = pc u \<and> fl t = fl u"
  unfolding process_MUL_def by (rule pc_arith)

lemma frame_ADD: "frame u (state_of (process_ADD u))"
  unfolding process_ADD_def by (rule frame_arith)

lemma pc_ADD: "process_ADD u = Inr t \<Longrightarrow> pc t = pc u \<and> fl t = fl u"
  unfolding process_ADD_def by (rule pc_arith)

text \<open>\<^verbatim>\<open>process_CMP\<close> changes the flags and nothing else but the output.\<close>

lemma CMP_state:
  "ram (state_of (process_CMP u)) = ram u \<and> reg (state_of (process_CMP u)) = reg u
   \<and> pc (state_of (process_CMP u)) = pc u \<and> ir (state_of (process_CMP u)) = ir u"
proof (cases "reg_operands u")
  case (Inl p)
  obtain e t where p: "p = (e, t)" by (cases p)
  from reg_operands_Inl [of u e t] Inl p show ?thesis
    by (simp add: process_CMP_def)
next
  case (Inr q)
  obtain a x y t where q: "q = ((a, x, y), t)" by (cases q) auto
  note first = reg_operands_Inr [of u "(a, x, y)" t]
  show ?thesis
  proof (cases "reg_operands t")
    case (Inl p)
    obtain e t' where p: "p = (e, t')" by (cases p)
    from reg_operands_Inl [of t e t'] Inl p first Inr q show ?thesis
      by (simp add: process_CMP_def)
  next
    case Inr2: (Inr q')
    obtain a' x' y' t' where q': "q' = ((a', x', y'), t')" by (cases q') auto
    from reg_operands_Inr [of t "(a', x', y')" t'] Inr2 q' first Inr q show ?thesis
      by (simp add: process_CMP_def)
  qed
qed

lemma frame_CMP: "frame u (state_of (process_CMP u))"
  using CMP_state [of u] by (simp add: frame_def mem8_def)


lemma frame_PUSH: "frame u (state_of (process_PUSH u))"
  by (simp add: process_PUSH_def frame_def case_prod_beta Let_def py_get_case mem8_def
      split: option.split)

lemma pc_PUSH: "process_PUSH u = Inr t \<Longrightarrow> pc t = pc u \<and> fl t = fl u"
  by (simp add: process_PUSH_def case_prod_beta Let_def py_get_case split: option.split_asm) auto

lemma frame_POP: "frame u (state_of (process_POP u))"
  by (simp add: process_POP_def frame_def case_prod_beta Let_def py_set_case mem8_def
      split: option.split)

lemma pc_POP: "process_POP u = Inr t \<Longrightarrow> pc t = pc u \<and> fl t = fl u"
  by (simp add: process_POP_def case_prod_beta Let_def py_set_case split: option.split_asm) auto

lemma frame_CALL: "frame u (state_of (process_CALL u))"
  by (simp add: process_CALL_def frame_def case_prod_beta Let_def py_get_case mem8_def
      split: option.split)

lemma fl_CALL: "process_CALL u = Inr t \<Longrightarrow> fl t = fl u"
  by (simp add: process_CALL_def case_prod_beta Let_def py_get_case split: option.split_asm) auto

lemma frame_RET: "frame u (state_of (process_RET u))"
  by (simp add: process_RET_def frame_def case_prod_beta Let_def mem8_def)

lemma fl_RET: "process_RET u = Inr t \<Longrightarrow> fl t = fl u"
  by (auto simp: process_RET_def case_prod_beta Let_def)

lemma frame_JMP: "frame u (state_of (process_JMP u))"
  by (simp add: process_JMP_def frame_def case_prod_beta py_get_case mem8_def
      split: option.split)

lemma fl_JMP: "process_JMP u = Inr t \<Longrightarrow> fl t = fl u"
  by (simp add: process_JMP_def case_prod_beta py_get_case split: option.split_asm) auto

lemma frame_JEQ: "frame u (state_of (process_JEQ u))"
  using frame_JMP [of u] by (simp add: process_JEQ_def frame_def mem8_def)

lemma fl_JEQ: "process_JEQ u = Inr t \<Longrightarrow> fl t = fl u"
  using fl_JMP [of u t] by (auto simp: process_JEQ_def split: if_split_asm)

lemma frame_JNE: "frame u (state_of (process_JNE u))"
  using frame_JMP [of u] by (simp add: process_JNE_def frame_def mem8_def)

lemma fl_JNE: "process_JNE u = Inr t \<Longrightarrow> fl t = fl u"
  using fl_JMP [of u t] by (auto simp: process_JNE_def split: if_split_asm)


lemma fetch_frame [simp]:
  "ram (fetch s) = ram s" "reg (fetch s) = reg s" "pc (fetch s) = pc s"
  "fl (fetch s) = fl s" "halted (fetch s) = halted s"
  "ir (fetch s) = fst (ram_read (pc s) s)"
  by (simp_all add: fetch_def case_prod_beta)

lemma fetch_in:
  "0 \<le> pc s \<Longrightarrow> pc s < int (length (ram s)) \<Longrightarrow> fetch s = s\<lparr>ir := ram s ! nat (pc s)\<rparr>"
  by (simp add: fetch_def ram_read_in)

lemma step_Inr:
  assumes "step s = Inr s'"
  shows "\<exists>h t. branchtable (ir (fetch s)) = Some h \<and> h (fetch s) = Inr t \<and>
         s' = (if \<not> instruction_sets_pc t then t\<lparr>pc := pc t + instruction_size t\<rparr> else t)"
proof (cases "branchtable (ir (fetch s))")
  case None
  with assms show ?thesis by (simp add: step_def Let_def)
next
  case (Some h)
  show ?thesis
  proof (cases "h (fetch s)")
    case (Inl e)
    with Some assms show ?thesis by (simp add: step_def Let_def)
  next
    case (Inr t)
    with Some assms have
      "s' = (if \<not> instruction_sets_pc t then t\<lparr>pc := pc t + instruction_size t\<rparr> else t)"
      by (simp add: step_def Let_def)
    with Some Inr show ?thesis by blast
  qed
qed

lemma handler_frame:
  assumes "branchtable i = Some h"
  shows "frame u (state_of (h u))"
  using branchtable_cases [OF assms]
  by (elim disjE conjE)
    (simp_all only: frame_HLT frame_LDI frame_PRN frame_MUL frame_PUSH frame_POP frame_CALL
      frame_RET frame_ADD frame_CMP frame_JMP frame_JEQ frame_JNE)


lemma handler_fl:
  assumes "branchtable i = Some h" "h u = Inr t" "i \<noteq> CMP"
  shows "fl t = fl u"
  using branchtable_cases [OF assms(1)] assms(2,3)
  by (elim disjE conjE)
    (simp_all add: pc_HLT pc_LDI pc_PRN pc_MUL pc_PUSH pc_POP pc_ADD fl_CALL fl_RET fl_JMP
      fl_JEQ fl_JNE)

lemma step_mem8: "mem8 s \<Longrightarrow> mem8 (state_of (step s))"
proof -
  assume m: "mem8 s"
  then have mf: "mem8 (fetch s)" by (simp add: mem8_def)
  show ?thesis
  proof (cases "branchtable (ir (fetch s))")
    case None
    then show ?thesis using mf by (simp add: step_def Let_def mem8_def)
  next
    case (Some h)
    from handler_frame [OF Some, of "fetch s"] mf have "mem8 (state_of (h (fetch s)))"
      by (simp add: frame_def)
    then show ?thesis using Some
      by (cases "h (fetch s)") (simp_all add: step_def Let_def mem8_def)
  qed
qed

lemma run_mem8: "mem8 s \<Longrightarrow> run n s = Some r \<Longrightarrow> mem8 (state_of r)"
proof (induction n arbitrary: s)
  case 0
  then show ?case by (simp split: if_split_asm) auto
next
  case (Suc n)
  show ?case
  proof (cases "halted s")
    case True
    with Suc.prems show ?thesis by auto
  next
    case False
    show ?thesis
    proof (cases "step s")
      case (Inl e)
      with False Suc.prems step_mem8 [of s] show ?thesis by auto
    next
      case (Inr s')
      with step_mem8 [of s] Suc.prems(1) have "mem8 s'" by simp
      moreover from Inr False Suc.prems(2) have "run n s' = Some r" by simp
      ultimately show ?thesis by (rule Suc.IH)
    qed
  qed
qed


lemma branchtable_lookup:
  "branchtable HLT = Some process_HLT" "branchtable LDI = Some process_LDI"
  "branchtable PRN = Some process_PRN" "branchtable PUSH = Some process_PUSH"
  "branchtable POP = Some process_POP" "branchtable CALL = Some process_CALL"
  "branchtable RET = Some process_RET" "branchtable CMP = Some process_CMP"
  "branchtable JMP = Some process_JMP" "branchtable JEQ = Some process_JEQ"
  "branchtable JNE = Some process_JNE"
  by (simp_all add: branchtable_def opcode_defs)

lemma decode_opcodes:
  "instruction_size (s\<lparr>ir := PUSH\<rparr>) = 2" "\<not> instruction_sets_pc (s\<lparr>ir := PUSH\<rparr>)"
  "instruction_size (s\<lparr>ir := POP\<rparr>) = 2" "\<not> instruction_sets_pc (s\<lparr>ir := POP\<rparr>)"
  "instruction_size (s\<lparr>ir := CMP\<rparr>) = 3" "\<not> instruction_sets_pc (s\<lparr>ir := CMP\<rparr>)"
  "instruction_size (s\<lparr>ir := CALL\<rparr>) = 2" "instruction_sets_pc (s\<lparr>ir := CALL\<rparr>)"
  "instruction_size (s\<lparr>ir := RET\<rparr>) = 1" "instruction_sets_pc (s\<lparr>ir := RET\<rparr>)"
  "instruction_size (s\<lparr>ir := JEQ\<rparr>) = 2" "instruction_sets_pc (s\<lparr>ir := JEQ\<rparr>)"
  "instruction_size (s\<lparr>ir := JNE\<rparr>) = 2" "instruction_sets_pc (s\<lparr>ir := JNE\<rparr>)"
  by (simp_all add: instruction_size_arith instruction_sets_pc_arith opcode_defs)

lemma step_handler:
  assumes "0 \<le> pc s" "pc s < int (length (ram s))" "branchtable (ram s ! nat (pc s)) = Some h"
  shows "step s = (case h (s\<lparr>ir := ram s ! nat (pc s)\<rparr>) of
                      Inl e \<Rightarrow> Inl e
                    | Inr s2 \<Rightarrow>
                        Inr (if \<not> instruction_sets_pc s2
                             then s2\<lparr>pc := pc s2 + instruction_size s2\<rparr> else s2))"
  using assms by (simp add: step_def fetch_in Let_def)

lemma step_PUSH:
  assumes "wf s" "0 \<le> pc s" "pc s + 1 < 256"
    and "ram s ! nat (pc s) = PUSH" "ram s ! nat (pc s + 1) = int r" "r < 8"
  shows "step s = Inr (s\<lparr>ir := PUSH, reg := (reg s)[7 := (sp s - 1) mod 256],
           mdr := (reg s)[7 := (sp s - 1) mod 256] ! r,
           ram := (ram s)[nat ((sp s - 1) mod 256) := (reg s)[7 := (sp s - 1) mod 256] ! r mod 256],
           pc := pc s + 2\<rparr>)"
proof -
  have len: "length (ram s) = 256" "length (reg s) = 8"
    using assms(1) by (simp_all add: wf_def)
  have h: "step s = (case process_PUSH (s\<lparr>ir := PUSH\<rparr>) of
                      Inl e \<Rightarrow> Inl e
                    | Inr s2 \<Rightarrow>
                        Inr (if \<not> instruction_sets_pc s2
                             then s2\<lparr>pc := pc s2 + instruction_size s2\<rparr> else s2))"
    using step_handler [of s process_PUSH] assms(2-4) len by (simp add: branchtable_lookup)
  have p: "process_PUSH (s\<lparr>ir := PUSH\<rparr>) =
     Inr (s\<lparr>ir := PUSH, reg := (reg s)[7 := (sp s - 1) mod 256],
           mdr := (reg s)[7 := (sp s - 1) mod 256] ! r,
           ram := (ram s)[nat ((sp s - 1) mod 256) := (reg s)[7 := (sp s - 1) mod 256] ! r mod 256]\<rparr>)"
    using assms(2,3,5,6) len
    by (simp add: process_PUSH_def set_sp_def sp_def op_a_def ram_read_in py_get_nat
        ram_write_def and_255 Let_def)
  show ?thesis
    unfolding h p by (simp add: instruction_size_arith instruction_sets_pc_arith PUSH_def)
qed

lemma step_POP:
  assumes "wf s" "0 \<le> pc s" "pc s + 1 < 256"
    and "ram s ! nat (pc s) = POP" "ram s ! nat (pc s + 1) = int r" "r < 8"
    and "0 \<le> sp s" "sp s < 256"
  shows "step s = Inr (s\<lparr>ir := POP, mdr := ram s ! nat (sp s),
           reg := (reg s)[r := ram s ! nat (sp s),
                          7 := ((reg s)[r := ram s ! nat (sp s)] ! 7 + 1) mod 256],
           pc := pc s + 2\<rparr>)"
proof -
  have len: "length (ram s) = 256" "length (reg s) = 8"
    using assms(1) by (simp_all add: wf_def)
  have h: "step s = (case process_POP (s\<lparr>ir := POP\<rparr>) of
                      Inl e \<Rightarrow> Inl e
                    | Inr s2 \<Rightarrow>
                        Inr (if \<not> instruction_sets_pc s2
                             then s2\<lparr>pc := pc s2 + instruction_size s2\<rparr> else s2))"
    using step_handler [of s process_POP] assms(2-4) len by (simp add: branchtable_lookup)
  have p: "process_POP (s\<lparr>ir := POP\<rparr>) =
     Inr (s\<lparr>ir := POP, mdr := ram s ! nat (sp s),
           reg := (reg s)[r := ram s ! nat (sp s),
                          7 := ((reg s)[r := ram s ! nat (sp s)] ! 7 + 1) mod 256]\<rparr>)"
    using assms(2,3,5-8) len
    by (simp add: process_POP_def set_sp_def sp_def op_a_def ram_read_in py_set_nat
        and_255 Let_def)
  show ?thesis
    unfolding h p by (simp add: instruction_size_arith instruction_sets_pc_arith POP_def)
qed


lemma step_RET:
  assumes "wf s" "0 \<le> pc s" "pc s < 256" "ram s ! nat (pc s) = RET"
  shows "step s = Inr ((snd (ram_read (sp s) s))\<lparr>ir := RET, pc := fst (ram_read (sp s) s),
           reg := (reg s)[7 := (sp s + 1) mod 256]\<rparr>)"
proof -
  have len: "length (ram s) = 256" "length (reg s) = 8"
    using assms(1) by (simp_all add: wf_def)
  have h: "step s = (case process_RET (s\<lparr>ir := RET\<rparr>) of
                      Inl e \<Rightarrow> Inl e
                    | Inr s2 \<Rightarrow>
                        Inr (if \<not> instruction_sets_pc s2
                             then s2\<lparr>pc := pc s2 + instruction_size s2\<rparr> else s2))"
    using step_handler [of s process_RET] assms(2-4) len by (simp add: branchtable_lookup)
  have p: "process_RET (s\<lparr>ir := RET\<rparr>) =
     Inr ((snd (ram_read (sp s) s))\<lparr>ir := RET, pc := fst (ram_read (sp s) s),
           reg := (reg s)[7 := (sp s + 1) mod 256]\<rparr>)"
    by (simp add: process_RET_def set_sp_def sp_def ram_read_def and_255 Let_def)
  show ?thesis
    unfolding h p by (simp add: instruction_sets_pc_arith RET_def)
qed

lemma fst_ram_read_cong: "ram t = ram s \<Longrightarrow> fst (ram_read a t) = fst (ram_read a s)"
  by (simp add: ram_read_def)

lemma step_CALL:
  assumes "wf s" "0 \<le> pc s" "pc s < 256" "ram s ! nat (pc s) = CALL" "step s = Inr s1"
  shows "reg s1 = (reg s)[7 := (sp s - 1) mod 256]
       \<and> ram s1 = (ram s)[nat ((sp s - 1) mod 256) := (pc s + 2) mod 256]
       \<and> py_get (reg s1) (fst (ram_read (pc s + 1) s1)) = Some (pc s1)"
proof -
  have len: "length (ram s) = 256" "length (reg s) = 8"
    using assms(1) by (simp_all add: wf_def)
  let ?s2 = "s\<lparr>ir := CALL, reg := (reg s)[7 := (sp s - 1) mod 256],
    ram := (ram s)[nat ((sp s - 1) mod 256) := (pc s + 2) mod 256]\<rparr>"
  have h: "step s = (case process_CALL (s\<lparr>ir := CALL\<rparr>) of
                      Inl e \<Rightarrow> Inl e
                    | Inr s2 \<Rightarrow>
                        Inr (if \<not> instruction_sets_pc s2
                             then s2\<lparr>pc := pc s2 + instruction_size s2\<rparr> else s2))"
    using step_handler [of s process_CALL] assms(2-4) len by (simp add: branchtable_lookup)
  have p: "process_CALL (s\<lparr>ir := CALL\<rparr>) =
     (case py_get (reg ?s2) (fst (op_a ?s2)) of
        None \<Rightarrow> Inl (IndexError, snd (op_a ?s2))
      | Some v \<Rightarrow> Inr ((snd (op_a ?s2))\<lparr>pc := v\<rparr>))"
    using len
    by (simp add: process_CALL_def set_sp_def sp_def ram_write_def and_255 Let_def
        case_prod_beta instruction_size_arith CALL_def cong: option.case_cong)
  show ?thesis
  proof (cases "py_get (reg ?s2) (fst (op_a ?s2))")
    case None
    with h p assms(5) show ?thesis by simp
  next
    case (Some v)
    have sets: "instruction_sets_pc ((snd (op_a ?s2))\<lparr>pc := v\<rparr>)"
      by (simp add: instruction_sets_pc_arith CALL_def)
    from h p Some sets assms(5) have s1: "s1 = (snd (op_a ?s2))\<lparr>pc := v\<rparr>"
      by simp
    have "fst (ram_read (pc s + 1) s1) = fst (op_a ?s2)"
      unfolding op_a_def by (simp add: s1 fst_ram_read_cong op_a_def)
    with Some show ?thesis by (simp add: s1)
  qed
qed

lemma step_CMP:
  assumes "wf s" "0 \<le> pc s" "pc s + 2 < 256" "ram s ! nat (pc s) = CMP"
    and "ram s ! nat (pc s + 1) = int ra" "ram s ! nat (pc s + 2) = int rb" "ra < 8" "rb < 8"
  shows "step s = Inr (s\<lparr>ir := CMP,
           fl := (if reg s ! ra < reg s ! rb then 4 else if reg s ! ra > reg s ! rb then 2 else 1),
           pc := pc s + 3\<rparr>)"
proof -
  have len: "length (ram s) = 256" "length (reg s) = 8"
    using assms(1) by (simp_all add: wf_def)
  have h: "step s = (case process_CMP (s\<lparr>ir := CMP\<rparr>) of
                      Inl e \<Rightarrow> Inl e
                    | Inr s2 \<Rightarrow>
                        Inr (if \<not> instruction_sets_pc s2
                             then s2\<lparr>pc := pc s2 + instruction_size s2\<rparr> else s2))"
    using step_handler [of s process_CMP] assms(2-4) len by (simp add: branchtable_lookup)
  have ops: "reg_operands (s\<lparr>ir := CMP\<rparr>) =
      Inr ((int ra, reg s ! ra, reg s ! rb), s\<lparr>ir := CMP\<rparr>)"
    using assms by (intro reg_operands_regs [THEN trans]) (simp_all add: wf_def)
  have p: "process_CMP (s\<lparr>ir := CMP\<rparr>) = Inr (s\<lparr>ir := CMP,
           fl := (if reg s ! ra < reg s ! rb then 4 else if reg s ! ra > reg s ! rb then 2 else 1)\<rparr>)"
    by (simp add: process_CMP_def ops)
  show ?thesis
    unfolding h p by (simp add: instruction_size_arith instruction_sets_pc_arith CMP_def)
qed

lemma step_JEQ_JNE:
  assumes "wf s" "0 \<le> pc s" "pc s + 1 < 256" "ram s ! nat (pc s + 1) = int ra" "ra < 8"
  shows "ram s ! nat (pc s) = JEQ \<Longrightarrow>
           step s = Inr (s\<lparr>ir := JEQ, pc := (if fl s = 1 then reg s ! ra else pc s + 2)\<rparr>)"
    and "ram s ! nat (pc s) = JNE \<Longrightarrow>
           step s = Inr (s\<lparr>ir := JNE, pc := (if fl s \<noteq> 1 then reg s ! ra else pc s + 2)\<rparr>)"
proof -
  have len: "length (ram s) = 256" "length (reg s) = 8"
    using assms(1) by (simp_all add: wf_def)
  have j: "\<And>i. process_JMP (s\<lparr>ir := i\<rparr>) = Inr (s\<lparr>ir := i, pc := reg s ! ra\<rparr>)"
    using assms(2-5) len by (simp add: process_JMP_def op_a_def ram_read_in py_get_nat)
  show "ram s ! nat (pc s) = JEQ \<Longrightarrow>
           step s = Inr (s\<lparr>ir := JEQ, pc := (if fl s = 1 then reg s ! ra else pc s + 2)\<rparr>)"
    using step_handler [of s process_JEQ] assms(2,3) len
    by (simp add: branchtable_lookup process_JEQ_def j decode_opcodes)
      (simp add: instruction_sets_pc_arith instruction_size_arith JEQ_def)
  show "ram s ! nat (pc s) = JNE \<Longrightarrow>
           step s = Inr (s\<lparr>ir := JNE, pc := (if fl s \<noteq> 1 then reg s ! ra else pc s + 2)\<rparr>)"
    using step_handler [of s process_JNE] assms(2,3) len
    by (simp add: branchtable_lookup process_JNE_def j decode_opcodes)
      (simp add: instruction_sets_pc_arith instruction_size_arith JNE_def)
qed

lemma step_fl:
  assumes "step s = Inr s'" "ir (fetch s) \<noteq> CMP"
  shows "fl s' = fl s"
proof -
  from step_Inr [OF assms(1)] obtain h t where
    h: "branchtable (ir (fetch s)) = Some h" and t: "h (fetch s) = Inr t" and
    s': "s' = (if \<not> instruction_sets_pc t then t\<lparr>pc := pc t + instruction_size t\<rparr> else t)"
    by blast
  from handler_fl [OF h t assms(2)] s' show ?thesis by simp
qed

section \<open>The decoder\<close>

text \<open>
  C5 (as amended). For every IR byte the decoder computes the instruction size as
  \<open>((IR >> 6) & 0b11) + 1\<close>, which is the top two bits plus one and so lies between 1 and 4;
  it is at most 3 exactly for the bytes below \<open>0b11000000\<close>, in particular for every
  opcode of the branch table. The sets-PC flag is bit 4 of IR. Both are functions of the
  instruction register alone and return a value only, so they change no machine state.
\<close>

theorem decoder_bit_inspection:
  assumes "0 \<le> ir s" "ir s < 256"
  shows "instruction_size s = ir s div 64 + 1
       \<and> 1 \<le> instruction_size s \<and> instruction_size s \<le> 4
       \<and> (instruction_size s \<le> 3 \<longleftrightarrow> ir s < 192)
       \<and> (branchtable (ir s) \<noteq> None \<longrightarrow> instruction_size s \<le> 3)
       \<and> (instruction_sets_pc s \<longleftrightarrow> bit (ir s) 4)
       \<and> (ir t = ir s \<longrightarrow> instruction_size t = instruction_size s
                          \<and> instruction_sets_pc t = instruction_sets_pc s)"
proof -
  have sz: "instruction_size s = ir s div 64 + 1"
    using assms by (simp add: instruction_size_arith)
  have tab: "branchtable (ir s) \<noteq> None \<longrightarrow> ir s < 192"
    using branchtable_cases [of "ir s"] by (auto simp: opcode_defs)
  show ?thesis
    using assms sz tab instruction_sets_pc_bit [of s]
    by (auto simp: instruction_size_def instruction_sets_pc_def)
qed

theorem decoder_bit_inspection_witness:
  "0 \<le> ir (init\<lparr>ir := CALL\<rparr>) \<and> ir (init\<lparr>ir := CALL\<rparr>) < 256
   \<and> instruction_size (init\<lparr>ir := CALL\<rparr>) = 2 \<and> instruction_sets_pc (init\<lparr>ir := CALL\<rparr>)"
proof -
  have h: "0 \<le> ir (init\<lparr>ir := CALL\<rparr>)" "ir (init\<lparr>ir := CALL\<rparr>) < 256"
    by (simp_all add: CALL_def)
  have b: "bit (80::int) 4"
    by (simp add: bit_iff_odd)
  show ?thesis
    using decoder_bit_inspection [OF h, of "init\<lparr>ir := CALL\<rparr>"] b by (simp add: CALL_def)
qed

text \<open>The byte \<open>0b11000000\<close> decodes to a size of 4, outside 1, 2, 3.\<close>

theorem decoder_size_counterexample:
  "instruction_size (init\<lparr>ir := 0b11000000\<rparr>) = 4
   \<and> instruction_size (init\<lparr>ir := 0b11000000\<rparr>) \<notin> {1, 2, 3}"
  by (simp add: instruction_size_arith)

section \<open>Faults of the execution loop\<close>

text \<open>
  C10. When the program counter lies outside \<open>[0, 256)\<close> at fetch time, the fetch returns
  the sentinel \<open>-1\<close> (printing the address) rather than raising; \<open>-1\<close> is no key of
  the branch table; so the loop ends through its unimplemented-instruction exit,
  \<^verbatim>\<open>sys.exit(1)\<close> after printing \<open>-1\<close> as the instruction.
\<close>

theorem fetch_outside_memory_exits:
  assumes "length (ram s) = 256" "\<not> halted s" "pc s < 0 \<or> 256 \<le> pc s"
  shows "ram_read (pc s) s =
           (- 1, s\<lparr>out := out s @ [Error_with_read_from_memory_address (pc s)]\<rparr>)
       \<and> branchtable (- 1) = None
       \<and> run (Suc n) s = Some (Inl (SystemExit 1, s\<lparr>ir := - 1, out := out s @
            [Error_with_read_from_memory_address (pc s), Could_not_find_instruction (- 1)]\<rparr>))"
proof -
  have rd: "ram_read (pc s) s =
      (- 1, s\<lparr>out := out s @ [Error_with_read_from_memory_address (pc s)]\<rparr>)"
    using assms by (auto simp: ram_read_def)
  have no: "branchtable (- 1) = None"
    by (simp add: branchtable_def opcode_defs)
  have "step s = Inl (SystemExit 1, s\<lparr>ir := - 1, out := out s @
       [Error_with_read_from_memory_address (pc s), Could_not_find_instruction (- 1)]\<rparr>)"
    by (simp add: step_def fetch_def rd no)
  then show ?thesis using assms(2) rd no by simp
qed

theorem fetch_outside_memory_exits_witness:
  "length (ram (init\<lparr>pc := 256\<rparr>)) = 256 \<and> \<not> halted (init\<lparr>pc := 256\<rparr>)
   \<and> run (Suc 0) (init\<lparr>pc := 256\<rparr>) =
       Some (Inl (SystemExit 1, init\<lparr>pc := 256, ir := - 1, out :=
         [Error_with_read_from_memory_address 256, Could_not_find_instruction (- 1)]\<rparr>))"
proof -
  have h: "length (ram (init\<lparr>pc := 256\<rparr>)) = 256" "\<not> halted (init\<lparr>pc := 256\<rparr>)"
    "pc (init\<lparr>pc := 256\<rparr>) < 0 \<or> 256 \<le> pc (init\<lparr>pc := 256\<rparr>)"
    by (simp_all add: init_def)
  show ?thesis
    using fetch_outside_memory_exits [OF h, of 0] h(1,2) by (simp add: init_def)
qed

text \<open>
  C3 (as amended). For every fetched opcode byte that is absent from the branch table,
  execution stops with \<^verbatim>\<open>sys.exit(1)\<close>, and the one line printed names the opcode value
  only. The program counter is not part of what is reported; it is left at the address of
  the offending byte in the machine state.
\<close>

theorem unknown_opcode_exits:
  assumes "length (ram s) = 256" "\<not> halted s" "0 \<le> pc s" "pc s < 256"
    and "branchtable (ram s ! nat (pc s)) = None"
  shows "run (Suc n) s = Some (Inl (SystemExit 1, s\<lparr>ir := ram s ! nat (pc s), out := out s @
           [Could_not_find_instruction (ram s ! nat (pc s))]\<rparr>))
       \<and> exit_report (run (Suc n) s) =
           Some (SystemExit 1, out s @ [Could_not_find_instruction (ram s ! nat (pc s))])"
  using assms by (simp add: step_def fetch_def ram_read_in exit_report_def)

theorem unknown_opcode_exits_witness:
  "length (ram (with_program [255])) = 256 \<and> \<not> halted (with_program [255])
   \<and> branchtable (ram (with_program [255]) ! nat (pc (with_program [255]))) = None
   \<and> exit_report (run (Suc 0) (with_program [255])) =
       Some (SystemExit 1, [Could_not_find_instruction 255])"
proof -
  have h: "length (ram (with_program [255])) = 256" "\<not> halted (with_program [255])"
    "0 \<le> pc (with_program [255])" "pc (with_program [255]) < 256"
    "branchtable (ram (with_program [255]) ! nat (pc (with_program [255]))) = None"
    by (simp_all add: with_program_def init_def branchtable_def opcode_defs)
  show ?thesis
    using unknown_opcode_exits [OF h, of 0] h(1,2,5)
    by (simp add: with_program_def init_def exit_report_def)
qed

text \<open>
  The same unknown byte met at address 0 and, after one \<^verbatim>\<open>LDI\<close>, at address 3 gives the
  same report: the report does not tell the program counter.
\<close>

theorem unknown_opcode_report_counterexample:
  "exit_report (run 1 (with_program [255])) =
     Some (SystemExit 1, [Could_not_find_instruction 255])
   \<and> exit_report (run 2 (with_program [LDI, 0, 0, 255])) =
     Some (SystemExit 1, [Could_not_find_instruction 255])"
  by code_simp


section \<open>Register arithmetic\<close>

text \<open>
  What a cycle of \<^verbatim>\<open>ADD\<close> or \<^verbatim>\<open>MUL\<close> does with two registers: the sum or the product
  is stored as Python computes it, with no mask, and the program counter advances by 3.
\<close>

lemma step_ADD_MUL:
  assumes "wf s" "0 \<le> pc s" "pc s + 2 < 256"
    and "ram s ! nat (pc s + 1) = int ra" "ram s ! nat (pc s + 2) = int rb"
    and "ra < 8" "rb < 8"
  shows "(ram s ! nat (pc s) = ADD \<longrightarrow>
           step s = Inr (s\<lparr>ir := ADD, reg := (reg s)[ra := reg s ! ra + reg s ! rb],
                            pc := pc s + 3\<rparr>))
       \<and> (ram s ! nat (pc s) = MUL \<longrightarrow>
           step s = Inr (s\<lparr>ir := MUL, reg := (reg s)[ra := reg s ! ra * reg s ! rb],
                            pc := pc s + 3\<rparr>))"
proof -
  have rd: "\<And>i. ram s ! nat (pc s) = i \<Longrightarrow> fetch s = s\<lparr>ir := i\<rparr>"
    using assms(1-3) by (simp add: fetch_def ram_read_in wf_def)
  have ops: "\<And>i. reg_operands (s\<lparr>ir := i\<rparr>) =
      Inr ((int ra, reg s ! ra, reg s ! rb), s\<lparr>ir := i\<rparr>)"
    using assms by (intro reg_operands_regs [THEN trans]) (simp_all add: wf_def)
  have len: "ra < length (reg s)" using assms by (simp add: wf_def)
  show ?thesis
    using len
    by (simp add: step_def rd branchtable_ADD branchtable_MUL process_ADD_def process_MUL_def
      ops py_set_nat instruction_size_arith instruction_sets_pc_arith Let_def)
      (simp add: opcode_defs)
qed

text \<open>
  C1. The claim is that \<^verbatim>\<open>ADD\<close> leaves \<open>Register[op_a] = (a + b) mod 256\<close> and \<^verbatim>\<open>MUL\<close>
  leaves \<open>Register[op_a] = (a * b) mod 256\<close>. The code does not do so: after
  \<^verbatim>\<open>LDI R0,200; LDI R1,100; ADD R0,R1; HLT\<close> register 0 holds 300, not
  \<open>(200 + 100) mod 256 = 44\<close>, and after \<^verbatim>\<open>LDI R0,16; LDI R1,16; MUL R0,R1; HLT\<close> it holds
  256, not 0. The other writers of 8-bit state do mask: the same sum pushed and popped
  (\<^verbatim>\<open>PUSH R0; POP R0\<close> after the \<^verbatim>\<open>ADD\<close>) comes back as 44, through the mask of
  \<^verbatim>\<open>ram_write\<close>, and the decrement of SP by the push goes through the mask of the
  \<^verbatim>\<open>sp\<close> setter.
\<close>

theorem ADD_MUL_unmasked:
  "run 4 (with_program [LDI, 0, 200, LDI, 1, 100, ADD, 0, 1, HLT]) =
     Some (Inr ((with_program [LDI, 0, 200, LDI, 1, 100, ADD, 0, 1, HLT])
       \<lparr>reg := [300, 100, 0, 0, 0, 0, 0, 244], pc := 10, ir := HLT, halted := True\<rparr>))
   \<and> (200 + 100) mod 256 = (44::int)
   \<and> run 4 (with_program [LDI, 0, 16, LDI, 1, 16, MUL, 0, 1, HLT]) =
     Some (Inr ((with_program [LDI, 0, 16, LDI, 1, 16, MUL, 0, 1, HLT])
       \<lparr>reg := [256, 16, 0, 0, 0, 0, 0, 244], pc := 10, ir := HLT, halted := True\<rparr>))
   \<and> (16 * 16) mod 256 = (0::int)
   \<and> run 6 (with_program [LDI, 0, 200, LDI, 1, 100, ADD, 0, 1, PUSH, 0, POP, 0, HLT]) =
     Some (Inr ((with_program [LDI, 0, 200, LDI, 1, 100, ADD, 0, 1, PUSH, 0, POP, 0, HLT])
       \<lparr>ram := (ram (with_program
                 [LDI, 0, 200, LDI, 1, 100, ADD, 0, 1, PUSH, 0, POP, 0, HLT]))[243 := 44],
        reg := [44, 100, 0, 0, 0, 0, 0, 244], pc := 14, ir := HLT, mdr := 44,
        halted := True\<rparr>))"
  by code_simp

section \<open>The program counter\<close>



section \<open>Memory cells stay 8-bit\<close>

text \<open>
  C9. Every in-bounds write to memory stores the value masked to 8 bits. So, starting from
  a memory of 8-bit values (as the loader is to deliver), every memory cell holds a value in
  \<open>[0, 255]\<close> after every write, after every instruction handler (whether it returns or
  raises), after every cycle, and in every state the loop ends in.
\<close>

theorem memory_cells_8bit:
  assumes "mem8 s"
  shows "(0 \<le> a \<and> a < int (length (ram s)) \<longrightarrow>
            ram (ram_write a v s) = (ram s)[nat a := v mod 256])
       \<and> mem8 (ram_write a v s)
       \<and> (branchtable i = Some h \<longrightarrow> mem8 (state_of (h s)))
       \<and> mem8 (state_of (step s))
       \<and> (run n s = Some r \<longrightarrow> mem8 (state_of r))"
proof -
  have w: "0 \<le> a \<and> a < int (length (ram s)) \<longrightarrow>
      ram (ram_write a v s) = (ram s)[nat a := v mod 256]"
    by (simp add: ram_write_def and_255)
  have m: "mem8 (ram_write a v s)"
    using assms by (simp add: mem8_def)
  have hd: "branchtable i = Some h \<longrightarrow> mem8 (state_of (h s))"
    using assms handler_frame [of i h s] by (simp add: frame_def)
  have r: "run n s = Some r \<longrightarrow> mem8 (state_of r)"
    using assms run_mem8 [of s n r] by simp
  from w m hd step_mem8 [OF assms] r show ?thesis by blast
qed

theorem memory_cells_8bit_witness:
  "mem8 (with_program [LDI, 0, 255, ADD, 0, 0, PUSH, 0, HLT])
   \<and> run 4 (with_program [LDI, 0, 255, ADD, 0, 0, PUSH, 0, HLT]) =
       Some (Inr ((with_program [LDI, 0, 255, ADD, 0, 0, PUSH, 0, HLT])
         \<lparr>ram := (ram (with_program [LDI, 0, 255, ADD, 0, 0, PUSH, 0, HLT]))[243 := 254],
          reg := [510, 0, 0, 0, 0, 0, 0, 243], pc := 9, ir := HLT, mdr := 510,
          halted := True\<rparr>))
   \<and> mem8 ((with_program [LDI, 0, 255, ADD, 0, 0, PUSH, 0, HLT])
         \<lparr>ram := (ram (with_program [LDI, 0, 255, ADD, 0, 0, PUSH, 0, HLT]))[243 := 254],
          reg := [510, 0, 0, 0, 0, 0, 0, 243], pc := 9, ir := HLT, mdr := 510,
          halted := True\<rparr>)"
proof -
  let ?s = "with_program [LDI, 0, 255, ADD, 0, 0, PUSH, 0, HLT]"
  let ?t = "?s\<lparr>ram := (ram ?s)[243 := 254], reg := [510, 0, 0, 0, 0, 0, 0, 243], pc := 9,
    ir := HLT, mdr := 510, halted := True\<rparr>"
  have h: "mem8 ?s"
    by code_simp
  have r: "run 4 ?s = Some (Inr ?t)"
    by code_simp
  from memory_cells_8bit [OF h, of 0 0 HLT process_HLT 4 "Inr ?t"] r
  have "mem8 (state_of (Inr ?t))"
    by blast
  with h r show ?thesis by simp
qed

section \<open>The stack\<close>

text \<open>
  C6. For every register index \<open>r\<close>, every 8-bit register value \<open>v\<close> and every machine
  state whose SP is a memory address, executing \<^verbatim>\<open>PUSH\<close> of register \<open>r\<close> and then, as
  the next instruction, \<^verbatim>\<open>POP\<close> into register \<open>r\<close> leaves \<open>Register[r] = v\<close> and SP
  equal to its value before the \<^verbatim>\<open>PUSH\<close>.
\<close>

theorem PUSH_POP_roundtrip:
  assumes "wf s" "0 \<le> pc s" "pc s + 3 < 256"
    and "ram s ! nat (pc s) = PUSH" "ram s ! nat (pc s + 1) = int r" "r < 8"
    and "reg s ! r = v" "0 \<le> v" "v < 256" "0 \<le> sp s" "sp s < 256"
    and "step s = Inr s1" "ram s1 ! nat (pc s1) = POP" "ram s1 ! nat (pc s1 + 1) = int r"
  shows "\<exists>s2. step s1 = Inr s2 \<and> reg s2 ! r = v \<and> sp s2 = sp s"
proof -
  have len: "length (ram s) = 256" "length (reg s) = 8"
    using assms(1) by (simp_all add: wf_def)
  let ?R = "(reg s)[7 := (sp s - 1) mod 256]"
  have s1: "s1 = s\<lparr>ir := PUSH, reg := ?R, mdr := ?R ! r,
           ram := (ram s)[nat ((sp s - 1) mod 256) := ?R ! r mod 256], pc := pc s + 2\<rparr>"
    using step_PUSH [of s r] assms by simp
  have Rr: "0 \<le> ?R ! r \<and> ?R ! r < 256"
    using assms(6-9) len by (cases "r = 7") simp_all
  have top: "ram s1 ! nat (sp s1) = ?R ! r"
    using Rr len by (simp add: s1 sp_def)
  have sp1: "sp s1 = (sp s - 1) mod 256"
    using len by (simp add: s1 sp_def)
  have wf1: "wf s1" using len by (simp add: s1 wf_def)
  have pc1: "pc s1 = pc s + 2" by (simp add: s1)
  have reg1: "reg s1 = ?R" by (simp add: s1)
  have "step s1 = Inr (s1\<lparr>ir := POP, mdr := ram s1 ! nat (sp s1),
           reg := (reg s1)[r := ram s1 ! nat (sp s1),
                          7 := ((reg s1)[r := ram s1 ! nat (sp s1)] ! 7 + 1) mod 256],
           pc := pc s1 + 2\<rparr>)"
    using assms(2,3,6,13,14) wf1 pc1 sp1 by (intro step_POP) simp_all
  moreover have "((reg s1)[r := ram s1 ! nat (sp s1),
       7 := ((reg s1)[r := ram s1 ! nat (sp s1)] ! 7 + 1) mod 256]) ! r = v"
    using assms(6-11) len unfolding top reg1
    by (cases "r = 7") (simp_all add: sp_def mod_simps)
  moreover have "((reg s1)[r := ram s1 ! nat (sp s1),
       7 := ((reg s1)[r := ram s1 ! nat (sp s1)] ! 7 + 1) mod 256]) ! 7 = sp s"
    using assms(6-11) len unfolding top reg1
    by (cases "r = 7") (simp_all add: sp_def mod_simps)
  ultimately show ?thesis by (simp add: sp_def)
qed

theorem PUSH_POP_roundtrip_witness:
  "wf ((with_program [PUSH, 0, POP, 0])\<lparr>reg := [42, 0, 0, 0, 0, 0, 0, 244]\<rparr>)
   \<and> step ((with_program [PUSH, 0, POP, 0])\<lparr>reg := [42, 0, 0, 0, 0, 0, 0, 244]\<rparr>) =
       Inr ((with_program [PUSH, 0, POP, 0])\<lparr>reg := [42, 0, 0, 0, 0, 0, 0, 243], ir := PUSH,
         mdr := 42, ram := (ram (with_program [PUSH, 0, POP, 0]))[243 := 42], pc := 2\<rparr>)
   \<and> (\<exists>s2. step ((with_program [PUSH, 0, POP, 0])\<lparr>reg := [42, 0, 0, 0, 0, 0, 0, 243],
           ir := PUSH, mdr := 42, ram := (ram (with_program [PUSH, 0, POP, 0]))[243 := 42],
           pc := 2\<rparr>) = Inr s2
         \<and> reg s2 ! 0 = 42 \<and> sp s2 = 244)"
proof -
  let ?s = "(with_program [PUSH, 0, POP, 0])\<lparr>reg := [42, 0, 0, 0, 0, 0, 0, 244]\<rparr>"
  let ?s1 = "(with_program [PUSH, 0, POP, 0])\<lparr>reg := [42, 0, 0, 0, 0, 0, 0, 243], ir := PUSH,
         mdr := 42, ram := (ram (with_program [PUSH, 0, POP, 0]))[243 := 42], pc := 2\<rparr>"
  have h: "wf ?s" "0 \<le> pc ?s" "pc ?s + 3 < 256" "ram ?s ! nat (pc ?s) = PUSH"
    "ram ?s ! nat (pc ?s + 1) = int 0" "(0::nat) < 8" "reg ?s ! 0 = 42" "(0::int) \<le> 42"
    "(42::int) < 256" "0 \<le> sp ?s" "sp ?s < 256"
    by (simp_all add: with_program_def init_def wf_def sp_def)
  have st: "step ?s = Inr ?s1"
    by code_simp
  have k: "ram ?s1 ! nat (pc ?s1) = POP" "ram ?s1 ! nat (pc ?s1 + 1) = int 0"
    by (simp_all add: with_program_def init_def)
  from PUSH_POP_roundtrip [OF h st k]
  have "\<exists>s2. step ?s1 = Inr s2 \<and> reg s2 ! 0 = 42 \<and> sp s2 = 244"
    by (simp add: sp_def with_program_def init_def)
  with h(1) st show ?thesis by blast
qed

section \<open>Subroutine call and return\<close>

text \<open>
  C7 (as amended). \<^verbatim>\<open>CALL\<close> sets SP to \<open>(SP - 1) mod 256\<close>, stores
  \<open>(PC + instruction_size(CALL)) mod 256\<close> at \<open>Memory[SP]\<close> (the size being 2), and sets PC
  to \<open>Register[op_a]\<close>, operand and register being read after the stack write. \<^verbatim>\<open>RET\<close>
  sets PC to \<open>Memory[SP]\<close> and SP to \<open>(SP + 1) mod 256\<close>. Hence, when a \<^verbatim>\<open>RET\<close> is
  executed in a state whose SP is the one the \<^verbatim>\<open>CALL\<close> left and whose stack slot still
  holds what the \<^verbatim>\<open>CALL\<close> wrote, it restores PC to the address after the \<^verbatim>\<open>CALL\<close> modulo
  256, which is the instruction immediately after the \<^verbatim>\<open>CALL\<close> whenever that address is
  below 256, and SP to its value before the \<^verbatim>\<open>CALL\<close> when that was a memory address.
\<close>

theorem CALL_RET:
  assumes "wf s" "0 \<le> pc s" "pc s < 256" "ram s ! nat (pc s) = CALL" "step s = Inr s1"
  shows "sp s1 = (sp s - 1) mod 256
       \<and> instruction_size (fetch s) = 2
       \<and> ram s1 ! nat (sp s1) = (pc s + instruction_size (fetch s)) mod 256
       \<and> py_get (reg s1) (fst (ram_read (pc s + 1) s1)) = Some (pc s1)
       \<and> (wf t \<and> 0 \<le> pc t \<and> pc t < 256 \<and> ram t ! nat (pc t) = RET
            \<and> 0 \<le> sp t \<and> sp t < 256 \<longrightarrow>
          step t = Inr (t\<lparr>ir := RET, pc := ram t ! nat (sp t),
                          reg := (reg t)[7 := (sp t + 1) mod 256]\<rparr>))
       \<and> (wf t \<and> 0 \<le> pc t \<and> pc t < 256 \<and> ram t ! nat (pc t) = RET
            \<and> sp t = sp s1 \<and> ram t ! nat (sp t) = ram s1 ! nat (sp s1) \<longrightarrow>
          (\<exists>t'. step t = Inr t' \<and> pc t' = (pc s + 2) mod 256
                \<and> (pc s + 2 < 256 \<longrightarrow> pc t' = pc s + 2)
                \<and> sp t' = (sp s1 + 1) mod 256
                \<and> (0 \<le> sp s \<and> sp s < 256 \<longrightarrow> sp t' = sp s)))"
proof -
  have len: "length (ram s) = 256" "length (reg s) = 8"
    using assms(1) by (simp_all add: wf_def)
  note c = step_CALL [OF assms]
  have sp1: "sp s1 = (sp s - 1) mod 256"
    using c len by (simp add: sp_def)
  have size: "instruction_size (fetch s) = 2"
    using assms(2-4) len by (simp add: fetch_in decode_opcodes)
  have slot: "ram s1 ! nat (sp s1) = (pc s + 2) mod 256"
    using c len by (simp add: sp1)
  have ret: "step t = Inr (t\<lparr>ir := RET, pc := ram t ! nat (sp t),
                          reg := (reg t)[7 := (sp t + 1) mod 256]\<rparr>)"
    if "wf t" "0 \<le> pc t" "pc t < 256" "ram t ! nat (pc t) = RET" "0 \<le> sp t" "sp t < 256" for t
    using step_RET [OF that(1-4)] that(1,5,6) by (simp add: ram_read_in wf_def)
  have rt: "\<exists>t'. step t = Inr t' \<and> pc t' = (pc s + 2) mod 256
                \<and> (pc s + 2 < 256 \<longrightarrow> pc t' = pc s + 2)
                \<and> sp t' = (sp s1 + 1) mod 256
                \<and> (0 \<le> sp s \<and> sp s < 256 \<longrightarrow> sp t' = sp s)"
    if t: "wf t" "0 \<le> pc t" "pc t < 256" "ram t ! nat (pc t) = RET" "sp t = sp s1"
      "ram t ! nat (sp t) = ram s1 ! nat (sp s1)"
  proof -
    have r: "0 \<le> sp t" "sp t < 256" using t(5) sp1 by simp_all
    have lt: "length (reg t) = 8" using t(1) by (simp add: wf_def)
    have "step t = Inr (t\<lparr>ir := RET, pc := ram t ! nat (sp t),
                          reg := (reg t)[7 := (sp t + 1) mod 256]\<rparr>)"
      using ret [OF t(1-4) r] .
    moreover have "ram t ! nat (sp t) = (pc s + 2) mod 256"
      using t(6) slot by simp
    moreover have "0 \<le> sp s \<and> sp s < 256 \<longrightarrow> (sp s1 + 1) mod 256 = sp s"
      by (simp add: sp1 mod_simps)
    ultimately show ?thesis
      using assms(2) lt t(5) by (simp add: sp_def)
  qed
  have slot': "ram s1 ! nat (sp s1) = (pc s + instruction_size (fetch s)) mod 256"
    using slot size by simp
  have target: "py_get (reg s1) (fst (ram_read (pc s + 1) s1)) = Some (pc s1)"
    using c by blast
  have A: "wf t \<and> 0 \<le> pc t \<and> pc t < 256 \<and> ram t ! nat (pc t) = RET
            \<and> 0 \<le> sp t \<and> sp t < 256 \<longrightarrow>
          step t = Inr (t\<lparr>ir := RET, pc := ram t ! nat (sp t),
                          reg := (reg t)[7 := (sp t + 1) mod 256]\<rparr>)"
    using ret [of t] by blast
  have B: "wf t \<and> 0 \<le> pc t \<and> pc t < 256 \<and> ram t ! nat (pc t) = RET
            \<and> sp t = sp s1 \<and> ram t ! nat (sp t) = ram s1 ! nat (sp s1) \<longrightarrow>
          (\<exists>t'. step t = Inr t' \<and> pc t' = (pc s + 2) mod 256
                \<and> (pc s + 2 < 256 \<longrightarrow> pc t' = pc s + 2)
                \<and> sp t' = (sp s1 + 1) mod 256
                \<and> (0 \<le> sp s \<and> sp s < 256 \<longrightarrow> sp t' = sp s))"
    using rt by blast
  show ?thesis
    using sp1 size slot' target A B by (intro conjI)
qed

theorem CALL_RET_witness:
  "wf (with_program [LDI, 0, 6, CALL, 0, HLT, RET])
   \<and> run 5 (with_program [LDI, 0, 6, CALL, 0, HLT, RET]) =
       Some (Inr ((with_program [LDI, 0, 6, CALL, 0, HLT, RET])
         \<lparr>ram := (ram (with_program [LDI, 0, 6, CALL, 0, HLT, RET]))[243 := 5],
          reg := [6, 0, 0, 0, 0, 0, 0, 244], pc := 6, ir := HLT, halted := True\<rparr>))
   \<and> ram ((with_program [LDI, 0, 6, CALL, 0, HLT, RET])
         \<lparr>reg := [6, 0, 0, 0, 0, 0, 0, 243], ir := CALL, pc := 6,
          ram := (ram (with_program [LDI, 0, 6, CALL, 0, HLT, RET]))[243 := 5]\<rparr>) ! 243 = 5"
proof -
  let ?p = "with_program [LDI, 0, 6, CALL, 0, HLT, RET]"
  let ?s = "?p\<lparr>reg := [6, 0, 0, 0, 0, 0, 0, 244], ir := LDI, pc := 3\<rparr>"
  let ?s1 = "?p\<lparr>reg := [6, 0, 0, 0, 0, 0, 0, 243], ir := CALL, pc := 6,
          ram := (ram ?p)[243 := 5]\<rparr>"
  have h: "wf ?s" "0 \<le> pc ?s" "pc ?s < 256" "ram ?s ! nat (pc ?s) = CALL"
    by (simp_all add: with_program_def init_def wf_def)
  have st: "step ?s = Inr ?s1"
    by code_simp
  have sz: "instruction_size (fetch ?s) = 2"
    by code_simp
  from CALL_RET [OF h st, of ?s1]
  have "ram ?s1 ! nat (sp ?s1) = (pc ?s + instruction_size (fetch ?s)) mod 256"
    by blast
  then have slot: "ram ?s1 ! 243 = 5"
    by (simp add: sz) (simp add: sp_def with_program_def init_def)
  have w: "wf ?p"
    by (simp add: with_program_def init_def wf_def)
  have r: "run 5 ?p = Some (Inr (?p\<lparr>ram := (ram ?p)[243 := 5],
          reg := [6, 0, 0, 0, 0, 0, 0, 244], pc := 6, ir := HLT, halted := True\<rparr>))"
    by code_simp
  from w r slot show ?thesis by blast
qed

text \<open>
  A \<^verbatim>\<open>CALL\<close> at address 254 stores 0, not \<open>254 + 2 = 256\<close>, and the \<^verbatim>\<open>RET\<close> it calls (at
  address 0) returns to address 0.
\<close>

theorem CALL_at_254_counterexample:
  "step (init\<lparr>ram := (replicate 256 0)[0 := RET, 254 := CALL], pc := 254\<rparr>) =
     Inr (init\<lparr>ram := (replicate 256 0)[0 := RET, 254 := CALL], pc := 0, ir := CALL,
              reg := [0, 0, 0, 0, 0, 0, 0, 243]\<rparr>)
   \<and> ram (init\<lparr>ram := (replicate 256 0)[0 := RET, 254 := CALL], pc := 0, ir := CALL,
              reg := [0, 0, 0, 0, 0, 0, 0, 243]\<rparr>) ! 243 = 0
   \<and> pc (init\<lparr>ram := (replicate 256 0)[0 := RET, 254 := CALL], pc := 254\<rparr>)
       + instruction_size (fetch (init\<lparr>ram := (replicate 256 0)[0 := RET, 254 := CALL],
           pc := 254\<rparr>)) = 256
   \<and> step (init\<lparr>ram := (replicate 256 0)[0 := RET, 254 := CALL], pc := 0, ir := CALL,
              reg := [0, 0, 0, 0, 0, 0, 0, 243]\<rparr>) =
     Inr (init\<lparr>ram := (replicate 256 0)[0 := RET, 254 := CALL], pc := 0, ir := RET,
              reg := [0, 0, 0, 0, 0, 0, 0, 244]\<rparr>)"
  by code_simp

section \<open>Comparison and conditional jumps\<close>

text \<open>
  C8. Every \<^verbatim>\<open>CMP\<close> sets the flags register to exactly one of the three flags: equal
  (\<open>0b001\<close>), greater (\<open>0b010\<close>) or less (\<open>0b100\<close>), chosen by comparing
  \<open>Register[op_a]\<close> with \<open>Register[op_b]\<close>. \<^verbatim>\<open>JEQ\<close> sets PC to \<open>Register[op_a]\<close> if the
  flags register is the equal flag and otherwise advances PC by its own size, 2; \<^verbatim>\<open>JNE\<close>
  sets PC to \<open>Register[op_a]\<close> if the flags register is not the equal flag and otherwise
  advances PC by 2. No instruction but \<^verbatim>\<open>CMP\<close> changes the flags, so the flags the jumps
  test are those of the last \<^verbatim>\<open>CMP\<close>.
\<close>

theorem CMP_JEQ_JNE:
  assumes "wf s" "0 \<le> pc s" "pc s + 1 < 256" "ram s ! nat (pc s + 1) = int ra" "ra < 8"
  shows "(ram s ! nat (pc s) = CMP \<and> pc s + 2 < 256 \<and> ram s ! nat (pc s + 2) = int rb \<and> rb < 8
            \<longrightarrow>
          (\<exists>s'. step s = Inr s' \<and> fl s' \<in> {1, 2, 4}
             \<and> (fl s' = 1 \<longleftrightarrow> reg s ! ra = reg s ! rb)
             \<and> (fl s' = 2 \<longleftrightarrow> reg s ! ra > reg s ! rb)
             \<and> (fl s' = 4 \<longleftrightarrow> reg s ! ra < reg s ! rb)
             \<and> (bit (fl s') 0 \<longleftrightarrow> fl s' = 1) \<and> (bit (fl s') 1 \<longleftrightarrow> fl s' = 2)
             \<and> (bit (fl s') 2 \<longleftrightarrow> fl s' = 4)
             \<and> pc s' = pc s + 3))
       \<and> (ram s ! nat (pc s) = JEQ \<longrightarrow>
            step s = Inr (s\<lparr>ir := JEQ, pc := (if fl s = 1 then reg s ! ra else pc s + 2)\<rparr>))
       \<and> (ram s ! nat (pc s) = JNE \<longrightarrow>
            step s = Inr (s\<lparr>ir := JNE, pc := (if fl s \<noteq> 1 then reg s ! ra else pc s + 2)\<rparr>))
       \<and> (ram s ! nat (pc s) \<noteq> CMP \<and> step s = Inr t \<longrightarrow> fl t = fl s)"
proof -
  have len: "length (ram s) = 256"
    using assms(1) by (simp add: wf_def)
  have bits: "bit (1::int) 0" "\<not> bit (1::int) 1" "\<not> bit (1::int) 2"
    "\<not> bit (2::int) 0" "bit (2::int) 1" "\<not> bit (2::int) 2"
    "\<not> bit (4::int) 0" "\<not> bit (4::int) 1" "bit (4::int) 2"
    by (simp_all add: bit_iff_odd)
  have cmp: "\<exists>s'. step s = Inr s' \<and> fl s' \<in> {1, 2, 4}
             \<and> (fl s' = 1 \<longleftrightarrow> reg s ! ra = reg s ! rb)
             \<and> (fl s' = 2 \<longleftrightarrow> reg s ! ra > reg s ! rb)
             \<and> (fl s' = 4 \<longleftrightarrow> reg s ! ra < reg s ! rb)
             \<and> (bit (fl s') 0 \<longleftrightarrow> fl s' = 1) \<and> (bit (fl s') 1 \<longleftrightarrow> fl s' = 2)
             \<and> (bit (fl s') 2 \<longleftrightarrow> fl s' = 4)
             \<and> pc s' = pc s + 3"
    if c: "ram s ! nat (pc s) = CMP" "pc s + 2 < 256" "ram s ! nat (pc s + 2) = int rb" "rb < 8"
  proof -
    consider "reg s ! ra < reg s ! rb" | "reg s ! ra > reg s ! rb" | "reg s ! ra = reg s ! rb"
      by linarith
    then show ?thesis
      using step_CMP [OF assms(1,2) c(2,1) assms(4) c(3) assms(5) c(4)] bits
      by cases simp_all
  qed
  have other: "fl t = fl s" if "ram s ! nat (pc s) \<noteq> CMP" "step s = Inr t"
    using step_fl [OF that(2)] that(1) assms(2,3) len by (simp add: ram_read_in)
  from cmp step_JEQ_JNE [OF assms] other show ?thesis
    by blast
qed

theorem CMP_JEQ_JNE_witness:
  "wf (with_program [CMP, 0, 1, JEQ, 2, JNE, 2, HLT])
   \<and> run 4 ((with_program [CMP, 0, 1, JEQ, 2, JNE, 2, HLT])\<lparr>reg := [3, 5, 7, 0, 0, 0, 0, 244]\<rparr>) =
       Some (Inr ((with_program [CMP, 0, 1, JEQ, 2, JNE, 2, HLT])
         \<lparr>reg := [3, 5, 7, 0, 0, 0, 0, 244], fl := 4, ir := HLT, pc := 8, halted := True\<rparr>))
   \<and> step ((with_program [CMP, 0, 1, JEQ, 2, JNE, 2, HLT])
         \<lparr>reg := [3, 5, 7, 0, 0, 0, 0, 244], fl := 4, ir := CMP, pc := 3\<rparr>) =
       Inr ((with_program [CMP, 0, 1, JEQ, 2, JNE, 2, HLT])
         \<lparr>reg := [3, 5, 7, 0, 0, 0, 0, 244], fl := 4, ir := JEQ, pc := 5\<rparr>)"
proof -
  let ?p = "with_program [CMP, 0, 1, JEQ, 2, JNE, 2, HLT]"
  let ?s = "?p\<lparr>reg := [3, 5, 7, 0, 0, 0, 0, 244], fl := 4, ir := CMP, pc := 3\<rparr>"
  have h: "wf ?s" "0 \<le> pc ?s" "pc ?s + 1 < 256" "ram ?s ! nat (pc ?s + 1) = int 2" "(2::nat) < 8"
    by (simp_all add: with_program_def init_def wf_def)
  have j: "ram ?s ! nat (pc ?s) = JEQ"
    by (simp add: with_program_def init_def)
  from CMP_JEQ_JNE [OF h, of 0 ?s] j
  have "step ?s = Inr (?s\<lparr>ir := JEQ, pc := (if fl ?s = 1 then reg ?s ! 2 else pc ?s + 2)\<rparr>)"
    by blast
  then have st: "step ?s = Inr (?p\<lparr>reg := [3, 5, 7, 0, 0, 0, 0, 244], fl := 4, ir := JEQ, pc := 5\<rparr>)"
    by simp
  have w: "wf ?p"
    by (simp add: with_program_def init_def wf_def)
  have r: "run 4 (?p\<lparr>reg := [3, 5, 7, 0, 0, 0, 0, 244]\<rparr>) =
       Some (Inr (?p\<lparr>reg := [3, 5, 7, 0, 0, 0, 0, 244], fl := 4, ir := HLT, pc := 8,
         halted := True\<rparr>))"
    by code_simp
  from w r st show ?thesis by blast
qed

section \<open>Memory access out of range\<close>

text \<open>A \<^verbatim>\<open>POP\<close> into a valid register with SP outside the memory.\<close>

lemma step_POP_outside:
  assumes "wf s" "0 \<le> pc s" "pc s + 1 < 256"
    and "ram s ! nat (pc s) = POP" "ram s ! nat (pc s + 1) = int r" "r < 8"
    and "sp s < 0 \<or> 256 \<le> sp s"
  shows "step s = Inr (s\<lparr>ir := POP, mdr := - 1,
           reg := (reg s)[r := - 1, 7 := ((reg s)[r := - 1] ! 7 + 1) mod 256],
           pc := pc s + 2,
           out := out s @ [Error_with_read_from_memory_address (sp s)]\<rparr>)"
proof -
  have len: "length (ram s) = 256" "length (reg s) = 8"
    using assms(1) by (simp_all add: wf_def)
  have h: "step s = (case process_POP (s\<lparr>ir := POP\<rparr>) of
                      Inl e \<Rightarrow> Inl e
                    | Inr s2 \<Rightarrow>
                        Inr (if \<not> instruction_sets_pc s2
                             then s2\<lparr>pc := pc s2 + instruction_size s2\<rparr> else s2))"
    using step_handler [of s process_POP] assms(2-4) len by (simp add: branchtable_lookup)
  have rd: "ram_read (sp s) (s\<lparr>ir := POP\<rparr>) =
      (- 1, s\<lparr>ir := POP, out := out s @ [Error_with_read_from_memory_address (sp s)]\<rparr>)"
    using assms(7) len by (auto simp: ram_read_def)
  have p: "process_POP (s\<lparr>ir := POP\<rparr>) =
     Inr (s\<lparr>ir := POP, mdr := - 1,
           reg := (reg s)[r := - 1, 7 := ((reg s)[r := - 1] ! 7 + 1) mod 256],
           out := out s @ [Error_with_read_from_memory_address (sp s)]\<rparr>)"
    using assms(2,3,5,6) len rd
    by (simp add: process_POP_def set_sp_def sp_def op_a_def ram_read_in py_set_nat
        and_255 Let_def)
  show ?thesis
    unfolding h p by (simp add: instruction_size_arith instruction_sets_pc_arith POP_def)
qed

text \<open>
  C2 (as amended). For every address outside \<open>[0, 256)\<close>, a memory read at that address
  returns the sentinel \<open>-1\<close> and a memory write at that address leaves the memory as it
  is; each prints one line that names the failing address (not the PC) and changes nothing
  else; the access signals no fault and does not by itself end the execution: a \<^verbatim>\<open>RET\<close>,
  and a \<^verbatim>\<open>POP\<close> into a register 0 to 7, executed with SP at such an address completes its
  cycle with \<open>-1\<close> as the value read (the new PC, the new register content).
\<close>

theorem memory_access_out_of_range:
  assumes "wf s" "a < 0 \<or> 256 \<le> a"
  shows "ram_read a s = (- 1, s\<lparr>out := out s @ [Error_with_read_from_memory_address a]\<rparr>)
       \<and> ram_write a v s = s\<lparr>out := out s @ [Error_with_read_from_memory_address a]\<rparr>
       \<and> (sp s = a \<and> 0 \<le> pc s \<and> pc s < 256 \<and> ram s ! nat (pc s) = RET \<longrightarrow>
            step s = Inr (s\<lparr>ir := RET, pc := - 1, reg := (reg s)[7 := (a + 1) mod 256],
                            out := out s @ [Error_with_read_from_memory_address a]\<rparr>))
       \<and> (sp s = a \<and> 0 \<le> pc s \<and> pc s + 1 < 256 \<and> ram s ! nat (pc s) = POP
            \<and> ram s ! nat (pc s + 1) = int r \<and> r < 8 \<longrightarrow>
            step s = Inr (s\<lparr>ir := POP, mdr := - 1,
                            reg := (reg s)[r := - 1, 7 := ((reg s)[r := - 1] ! 7 + 1) mod 256],
                            pc := pc s + 2,
                            out := out s @ [Error_with_read_from_memory_address a]\<rparr>))"
proof -
  have len: "length (ram s) = 256"
    using assms(1) by (simp add: wf_def)
  have rd: "ram_read a s = (- 1, s\<lparr>out := out s @ [Error_with_read_from_memory_address a]\<rparr>)"
    using assms(2) len by (auto simp: ram_read_def)
  have wr: "ram_write a v s = s\<lparr>out := out s @ [Error_with_read_from_memory_address a]\<rparr>"
    using assms(2) len by (auto simp: ram_write_def)
  have ret: "step s = Inr (s\<lparr>ir := RET, pc := - 1, reg := (reg s)[7 := (a + 1) mod 256],
                            out := out s @ [Error_with_read_from_memory_address a]\<rparr>)"
    if "sp s = a" "0 \<le> pc s" "pc s < 256" "ram s ! nat (pc s) = RET"
    using step_RET [OF assms(1) that(2-4)] that(1) rd by simp
  have pop: "step s = Inr (s\<lparr>ir := POP, mdr := - 1,
                            reg := (reg s)[r := - 1, 7 := ((reg s)[r := - 1] ! 7 + 1) mod 256],
                            pc := pc s + 2,
                            out := out s @ [Error_with_read_from_memory_address a]\<rparr>)"
    if "sp s = a" "0 \<le> pc s" "pc s + 1 < 256" "ram s ! nat (pc s) = POP"
      "ram s ! nat (pc s + 1) = int r" "r < 8"
    using step_POP_outside [OF assms(1) that(2-6)] that(1) assms(2) by simp
  from rd wr ret pop show ?thesis by blast
qed

theorem memory_access_out_of_range_witness:
  "wf ((with_program [POP, 0])\<lparr>reg := [0, 0, 0, 0, 0, 0, 0, 488]\<rparr>)
   \<and> ((488::int) < 0 \<or> (256::int) \<le> 488)
   \<and> ram_read 488 ((with_program [POP, 0])\<lparr>reg := [0, 0, 0, 0, 0, 0, 0, 488]\<rparr>) =
       (- 1, (with_program [POP, 0])\<lparr>reg := [0, 0, 0, 0, 0, 0, 0, 488],
               out := [Error_with_read_from_memory_address 488]\<rparr>)
   \<and> ram_write 488 7 ((with_program [POP, 0])\<lparr>reg := [0, 0, 0, 0, 0, 0, 0, 488]\<rparr>) =
       (with_program [POP, 0])\<lparr>reg := [0, 0, 0, 0, 0, 0, 0, 488],
               out := [Error_with_read_from_memory_address 488]\<rparr>
   \<and> step ((with_program [POP, 0])\<lparr>reg := [0, 0, 0, 0, 0, 0, 0, 488]\<rparr>) =
       Inr ((with_program [POP, 0])\<lparr>reg := [- 1, 0, 0, 0, 0, 0, 0, 233], ir := POP,
               mdr := - 1, pc := 2, out := [Error_with_read_from_memory_address 488]\<rparr>)"
proof -
  let ?s = "(with_program [POP, 0])\<lparr>reg := [0, 0, 0, 0, 0, 0, 0, 488]\<rparr>"
  have h: "wf ?s" "(488::int) < 0 \<or> (256::int) \<le> 488"
    by (simp_all add: with_program_def init_def wf_def)
  have k: "sp ?s = 488 \<and> 0 \<le> pc ?s \<and> pc ?s + 1 < 256 \<and> ram ?s ! nat (pc ?s) = POP
            \<and> ram ?s ! nat (pc ?s + 1) = int 0 \<and> (0::nat) < 8"
    by (simp add: with_program_def init_def sp_def)
  from memory_access_out_of_range [OF h, of 7 0] k
  have "ram_read 488 ?s = (- 1, ?s\<lparr>out := out ?s @ [Error_with_read_from_memory_address 488]\<rparr>)
      \<and> ram_write 488 7 ?s = ?s\<lparr>out := out ?s @ [Error_with_read_from_memory_address 488]\<rparr>
      \<and> step ?s = Inr (?s\<lparr>ir := POP, mdr := - 1,
            reg := (reg ?s)[0 := - 1, 7 := ((reg ?s)[0 := - 1] ! 7 + 1) mod 256],
            pc := pc ?s + 2, out := out ?s @ [Error_with_read_from_memory_address 488]\<rparr>)"
    by blast
  with h show ?thesis
    by (simp add: with_program_def init_def)
qed

text \<open>
  \<^verbatim>\<open>ADD R7,R7; POP R0; HLT\<close> reads memory at address 488: the run goes on and halts
  cleanly, with the substitute \<open>-1\<close> in register 0 and one printed line that names the
  address only.
\<close>

theorem read_out_of_range_counterexample:
  "run 3 (with_program [ADD, 7, 7, POP, 0, HLT]) =
     Some (Inr ((with_program [ADD, 7, 7, POP, 0, HLT])
       \<lparr>reg := [- 1, 0, 0, 0, 0, 0, 0, 233], pc := 6, ir := HLT, mdr := - 1, halted := True,
         out := [Error_with_read_from_memory_address 488]\<rparr>))"
  by code_simp

end
